theory Spec2Isabelle
  imports Complex_Main "HOL-Library.Word"
begin

section \<open>JavaScript numbers\<close>

text \<open>
  The program computes with JavaScript numbers. The model keeps the special values of
  IEEE 754 (\<open>NaN\<close>, \<open>+Infinity\<close>, \<open>-Infinity\<close>) and their arithmetic, and takes
  every finite value as an exact rational: rounding, overflow of finite results and the
  sign of zero are not part of the model. Dividing by zero gives \<open>NaN\<close> or an
  infinity, as it does in JavaScript; the zero divisor counts as \<open>+0\<close>.
\<close>

datatype jsnum = Fin rat | PInf | NInf | NaN

fun jneg :: "jsnum \<Rightarrow> jsnum" where
  "jneg (Fin a) = Fin (- a)"
| "jneg PInf = NInf"
| "jneg NInf = PInf"
| "jneg NaN = NaN"

fun jadd :: "jsnum \<Rightarrow> jsnum \<Rightarrow> jsnum" where
  "jadd (Fin a) (Fin b) = Fin (a + b)"
| "jadd (Fin a) PInf = PInf"
| "jadd (Fin a) NInf = NInf"
| "jadd PInf (Fin b) = PInf"
| "jadd PInf PInf = PInf"
| "jadd PInf NInf = NaN"
| "jadd NInf (Fin b) = NInf"
| "jadd NInf PInf = NaN"
| "jadd NInf NInf = NInf"
| "jadd NaN b = NaN"
| "jadd a NaN = NaN"

definition jsub :: "jsnum \<Rightarrow> jsnum \<Rightarrow> jsnum" where
  "jsub a b = jadd a (jneg b)"

fun jmul :: "jsnum \<Rightarrow> jsnum \<Rightarrow> jsnum" where
  "jmul (Fin a) (Fin b) = Fin (a * b)"
| "jmul (Fin a) PInf = (if a = 0 then NaN else if 0 < a then PInf else NInf)"
| "jmul (Fin a) NInf = (if a = 0 then NaN else if 0 < a then NInf else PInf)"
| "jmul PInf (Fin b) = (if b = 0 then NaN else if 0 < b then PInf else NInf)"
| "jmul NInf (Fin b) = (if b = 0 then NaN else if 0 < b then NInf else PInf)"
| "jmul PInf PInf = PInf"
| "jmul PInf NInf = NInf"
| "jmul NInf PInf = NInf"
| "jmul NInf NInf = PInf"
| "jmul NaN b = NaN"
| "jmul a NaN = NaN"

fun jdiv :: "jsnum \<Rightarrow> jsnum \<Rightarrow> jsnum" where
  "jdiv (Fin a) (Fin b) =
     (if b = 0 then (if a = 0 then NaN else if 0 < a then PInf else NInf)
      else Fin (a / b))"
| "jdiv (Fin a) PInf = Fin 0"
| "jdiv (Fin a) NInf = Fin 0"
| "jdiv PInf (Fin b) = (if 0 \<le> b then PInf else NInf)"
| "jdiv NInf (Fin b) = (if 0 \<le> b then NInf else PInf)"
| "jdiv PInf PInf = NaN"
| "jdiv PInf NInf = NaN"
| "jdiv NInf PInf = NaN"
| "jdiv NInf NInf = NaN"
| "jdiv NaN b = NaN"
| "jdiv a NaN = NaN"

text \<open>The comparisons \<open><=\<close>, \<open><\<close>, \<open>>=\<close> and \<open>===\<close>: false as soon as one side is \<open>NaN\<close>.\<close>

fun jle :: "jsnum \<Rightarrow> jsnum \<Rightarrow> bool" where
  "jle (Fin a) (Fin b) = (a \<le> b)"
| "jle (Fin a) PInf = True"
| "jle (Fin a) NInf = False"
| "jle PInf (Fin b) = False"
| "jle PInf PInf = True"
| "jle PInf NInf = False"
| "jle NInf (Fin b) = True"
| "jle NInf PInf = True"
| "jle NInf NInf = True"
| "jle NaN b = False"
| "jle a NaN = False"

fun jlt :: "jsnum \<Rightarrow> jsnum \<Rightarrow> bool" where
  "jlt (Fin a) (Fin b) = (a < b)"
| "jlt (Fin a) PInf = True"
| "jlt (Fin a) NInf = False"
| "jlt PInf b = False"
| "jlt NInf (Fin b) = True"
| "jlt NInf PInf = True"
| "jlt NInf NInf = False"
| "jlt NaN b = False"
| "jlt a NaN = False"

definition jge :: "jsnum \<Rightarrow> jsnum \<Rightarrow> bool" where
  "jge a b = jle b a"

definition jseq :: "jsnum \<Rightarrow> jsnum \<Rightarrow> bool" where
  "jseq a b = (a \<noteq> NaN \<and> a = b)"

text \<open>\<open>Math.min\<close>, \<open>Math.max\<close> and \<open>Math.floor\<close>.\<close>

definition jmin :: "jsnum \<Rightarrow> jsnum \<Rightarrow> jsnum" where
  "jmin a b = (if a = NaN \<or> b = NaN then NaN else if jle a b then a else b)"

definition jmax :: "jsnum \<Rightarrow> jsnum \<Rightarrow> jsnum" where
  "jmax a b = (if a = NaN \<or> b = NaN then NaN else if jle a b then b else a)"

fun jfloor :: "jsnum \<Rightarrow> jsnum" where
  "jfloor (Fin a) = Fin (of_int \<lfloor>a\<rfloor>)"
| "jfloor PInf = PInf"
| "jfloor NInf = NInf"
| "jfloor NaN = NaN"

text \<open>Truthiness of a number, and \<open>a || b\<close>: zero and \<open>NaN\<close> are falsy.\<close>

definition truthy :: "jsnum \<Rightarrow> bool" where
  "truthy a = (a \<noteq> NaN \<and> a \<noteq> Fin 0)"

definition jor :: "jsnum \<Rightarrow> jsnum \<Rightarrow> jsnum" where
  "jor a b = (if truthy a then a else b)"

fun isFinite :: "jsnum \<Rightarrow> bool" where
  "isFinite (Fin a) = True"
| "isFinite PInf = False"
| "isFinite NInf = False"
| "isFinite NaN = False"

definition num :: "nat \<Rightarrow> jsnum" where
  "num n = Fin (of_nat n)"

section \<open>The curve data model\<close>

record canvasBounds =
  bounds_x :: jsnum
  bounds_yTop :: jsnum
  bounds_yBottom :: jsnum

record lineSegment =
  seg_x1 :: jsnum
  seg_y1 :: jsnum
  seg_x2 :: jsnum
  seg_y2 :: jsnum

text \<open>
  \<open>curveData\<close> itself may be \<open>null\<close> or \<open>undefined\<close> (an \<open>option\<close>), and so may its
  \<open>lineSegments\<close> property; \<open>bounds\<close> is a field of every curve object.
\<close>

record curveData =
  bounds :: canvasBounds
  lineSegments :: "lineSegment list option"

record physicalSegment =
  yMin :: jsnum
  yMax :: jsnum
  z0 :: jsnum
  z1 :: jsnum
  z2 :: jsnum

section \<open>convertCurveDataToSegments\<close>

definition defaultSegment :: "physicalSegment list" where
  "defaultSegment =
     [\<lparr>yMin = Fin (- (2 / 5)), yMax = Fin (2 / 5), z0 = Fin 0, z1 = Fin 0, z2 = Fin 0\<rparr>]"

definition physicalHalfHeight :: jsnum where
  "physicalHalfHeight = Fin 2"

definition physicalMaxDepth :: jsnum where
  "physicalMaxDepth = Fin 1"

text \<open>The callback of \<open>lineSegments.map\<close>: one line segment to one physical segment.\<close>

definition convertSegment :: "canvasBounds \<Rightarrow> lineSegment \<Rightarrow> physicalSegment" where
  "convertSegment b seg =
     (let canvasHeight = jsub (bounds_yBottom b) (bounds_yTop b);
          canvasWidth = bounds_x b;
          y1Physical =
            jsub (jmul (jdiv (jsub (seg_y1 seg) (bounds_yTop b)) canvasHeight)
                       (jmul (Fin 2) physicalHalfHeight))
                 physicalHalfHeight;
          y2Physical =
            jsub (jmul (jdiv (jsub (seg_y2 seg) (bounds_yTop b)) canvasHeight)
                       (jmul (Fin 2) physicalHalfHeight))
                 physicalHalfHeight;
          x1Depth = jneg (jmul (jdiv (jsub (bounds_x b) (seg_x1 seg)) canvasWidth)
                               physicalMaxDepth);
          x2Depth = jneg (jmul (jdiv (jsub (bounds_x b) (seg_x2 seg)) canvasWidth)
                               physicalMaxDepth);
          (d0, d2) = (if jle y1Physical y2Physical then (x1Depth, x2Depth)
                      else (x2Depth, x1Depth))
      in \<lparr>yMin = jmin y1Physical y2Physical,
          yMax = jmax y1Physical y2Physical,
          z0 = d0,
          z1 = jdiv (jadd d0 d2) (Fin 2),
          z2 = d2\<rparr>)"

definition convertCurveDataToSegments :: "curveData option \<Rightarrow> physicalSegment list" where
  "convertCurveDataToSegments cd =
     (case cd of
        None \<Rightarrow> defaultSegment
      | Some c \<Rightarrow>
          (case lineSegments c of
             None \<Rightarrow> defaultSegment
           | Some segs \<Rightarrow>
               if length segs = 0 then defaultSegment
               else map (convertSegment (bounds c)) segs))"

section \<open>Frames\<close>

text \<open>
  A frame is what \<open>ctx.getImageData(0, 0, w, h)\<close> gives for the current video image:
  \<open>videoWidth\<close>, \<open>videoHeight\<close> and the \<open>Uint8ClampedArray\<close> of its RGBA bytes, row
  after row. A video that has an image reports positive dimensions
  (\<open>videoWidth = 0\<close> means that no image is there yet), and its array holds four bytes
  for each pixel.
\<close>

type_synonym byte = "8 word"

record frame =
  videoWidth :: nat
  videoHeight :: nat
  frame_data :: "byte list"

definition validFrame :: "frame \<Rightarrow> bool" where
  "validFrame f =
     (0 < videoWidth f \<and> 0 < videoHeight f \<and>
      length (frame_data f) = videoWidth f * videoHeight f * 4)"

text \<open>
  Reading \<open>data[i]\<close> of a typed array with a number \<open>i\<close>: \<open>undefined\<close> (here \<open>None\<close>)
  unless \<open>i\<close> is an integer index within the array. Storing \<open>undefined\<close> into a
  \<open>Uint8ClampedArray\<close> stores 0.
\<close>

definition readData :: "byte list \<Rightarrow> jsnum \<Rightarrow> byte option" where
  "readData d i =
     (case i of
        Fin a \<Rightarrow>
          (if a = of_int \<lfloor>a\<rfloor> \<and> 0 \<le> a \<and> nat \<lfloor>a\<rfloor> < length d
           then Some (d ! nat \<lfloor>a\<rfloor>) else None)
      | PInf \<Rightarrow> None
      | NInf \<Rightarrow> None
      | NaN \<Rightarrow> None)"

definition toUint8 :: "byte option \<Rightarrow> byte" where
  "toUint8 v = (case v of None \<Rightarrow> 0 | Some b \<Rightarrow> b)"

section \<open>applyDistortion\<close>

text \<open>
  The segment search: the test \<open>curveY >= minY && curveY <= maxY\<close>, the interpolation
  parameter \<open>t\<close> with its guarded denominator \<open>seg.y2 - seg.y1 || 1\<close>, the interpolated
  \<open>curveX\<close>, and the \<open>for ... of\<close> loop that stops at its first hit (\<open>break\<close>). The
  four rotation branches of the source repeat this text word for word.
\<close>

definition segContains :: "jsnum \<Rightarrow> lineSegment \<Rightarrow> bool" where
  "segContains curveY seg =
     (let minY = jmin (seg_y1 seg) (seg_y2 seg);
          maxY = jmax (seg_y1 seg) (seg_y2 seg)
      in jge curveY minY \<and> jle curveY maxY)"

definition segT :: "jsnum \<Rightarrow> lineSegment \<Rightarrow> jsnum" where
  "segT curveY seg =
     jdiv (jsub curveY (seg_y1 seg)) (jor (jsub (seg_y2 seg) (seg_y1 seg)) (Fin 1))"

definition segCurveX :: "jsnum \<Rightarrow> lineSegment \<Rightarrow> jsnum" where
  "segCurveX curveY seg =
     (let t = segT curveY seg
      in jadd (seg_x1 seg) (jmul t (jsub (seg_x2 seg) (seg_x1 seg))))"

fun findCurveX :: "jsnum \<Rightarrow> jsnum \<Rightarrow> lineSegment list \<Rightarrow> jsnum" where
  "findCurveX curveX curveY [] = curveX"
| "findCurveX curveX curveY (seg # segs) =
     (if segContains curveY seg then segCurveX curveY seg
      else findCurveX curveX curveY segs)"

text \<open>\<open>offset\<close> and \<open>disp\<close>; \<open>scale\<close> is \<open>w\<close> at 0 and 180 degrees, \<open>h\<close> at 90 and 270.\<close>

definition displacement :: "canvasBounds \<Rightarrow> lineSegment list \<Rightarrow> jsnum \<Rightarrow> nat \<Rightarrow> jsnum" where
  "displacement b segs curveY scale =
     (let xRange = bounds_x b;
          curveX = findCurveX (bounds_x b) curveY segs;
          offset = jdiv (jsub (bounds_x b) curveX) xRange
      in jmul (jmul offset (num scale)) (Fin (1 / 2)))"

text \<open>The source coordinate \<open>(sourceX, sourceY)\<close> of the output pixel \<open>(x, y)\<close>.\<close>

definition sourceCoord ::
  "nat \<Rightarrow> nat \<Rightarrow> canvasBounds \<Rightarrow> lineSegment list \<Rightarrow> jsnum \<Rightarrow> nat \<Rightarrow> nat \<Rightarrow> jsnum \<times> jsnum" where
  "sourceCoord w h b segs rot x y =
     (let yRange = jsub (bounds_yBottom b) (bounds_yTop b)
      in if jseq rot (Fin 0) then
           (let curveY = jadd (bounds_yTop b) (jmul (jdiv (num y) (num h)) yRange);
                disp = displacement b segs curveY w
            in (jfloor (jsub (num x) disp), num y))
         else if jseq rot (Fin 90) then
           (let curveY = jadd (bounds_yTop b) (jmul (jdiv (num x) (num w)) yRange);
                disp = displacement b segs curveY h
            in (num x, jfloor (jsub (num y) disp)))
         else if jseq rot (Fin 180) then
           (let curveY =
                  jadd (bounds_yTop b) (jmul (jdiv (jsub (num h) (num y)) (num h)) yRange);
                disp = displacement b segs curveY w
            in (jfloor (jadd (num x) disp), num y))
         else if jseq rot (Fin 270) then
           (let curveY =
                  jadd (bounds_yTop b) (jmul (jdiv (jsub (num w) (num x)) (num w)) yRange);
                disp = displacement b segs curveY h
            in (num x, jfloor (jadd (num y) disp)))
         else (num x, num y))"

text \<open>The test \<open>sourceX >= 0 && sourceX < w && sourceY >= 0 && sourceY < h\<close>.\<close>

definition inFrame :: "nat \<Rightarrow> nat \<Rightarrow> jsnum \<times> jsnum \<Rightarrow> bool" where
  "inFrame w h s =
     (case s of (sourceX, sourceY) \<Rightarrow>
        jge sourceX (Fin 0) \<and> jlt sourceX (num w) \<and> jge sourceY (Fin 0) \<and> jlt sourceY (num h))"

definition sourceIdx :: "nat \<Rightarrow> jsnum \<times> jsnum \<Rightarrow> jsnum" where
  "sourceIdx w s =
     (case s of (sourceX, sourceY) \<Rightarrow> jmul (jadd (jmul sourceY (num w)) sourceX) (Fin 4))"

text \<open>
  The end of the loop body: the four channels of the target pixel are written only when
  the source coordinate passes the test; otherwise \<open>outputData\<close> stays as it is.
\<close>

definition copyPixel ::
  "nat \<Rightarrow> nat \<Rightarrow> byte list \<Rightarrow> jsnum \<times> jsnum \<Rightarrow> nat \<Rightarrow> nat \<Rightarrow> byte list \<Rightarrow> byte list" where
  "copyPixel w h src s x y out =
     (if inFrame w h s then
        (let si = sourceIdx w s;
             targetIdx = (y * w + x) * 4
         in out[targetIdx := toUint8 (readData src si),
                targetIdx + 1 := toUint8 (readData src (jadd si (Fin 1))),
                targetIdx + 2 := toUint8 (readData src (jadd si (Fin 2))),
                targetIdx + 3 := toUint8 (readData src (jadd si (Fin 3)))])
      else out)"

text \<open>
  The two nested loops over \<open>y\<close> and \<open>x\<close>, started on the zeroed array of
  \<open>ctx.createImageData(w, h)\<close>.
\<close>

definition distortLoop ::
  "nat \<Rightarrow> nat \<Rightarrow> byte list \<Rightarrow> canvasBounds \<Rightarrow> lineSegment list \<Rightarrow> jsnum \<Rightarrow> byte list" where
  "distortLoop w h src b segs rot =
     fold (\<lambda>y. fold (\<lambda>x. copyPixel w h src (sourceCoord w h b segs rot x y) x y) [0..<w])
          [0..<h] (replicate (w * h * 4) 0)"

datatype error = TypeError | IndexSizeError

definition rotBranch :: "jsnum \<Rightarrow> bool" where
  "rotBranch rot =
     (jseq rot (Fin 0) \<or> jseq rot (Fin 90) \<or> jseq rot (Fin 180) \<or> jseq rot (Fin 270))"

text \<open>
  \<open>applyDistortion\<close> returns what it puts on the canvas. It can throw in three places:
  \<open>getImageData\<close> and \<open>createImageData\<close> throw an \<open>IndexSizeError\<close> for a width or
  height of zero; \<open>curve.bounds\<close> throws a \<open>TypeError\<close> for an absent curve; and
  \<open>for (const seg of curve.lineSegments)\<close> throws a \<open>TypeError\<close> for an absent list,
  at the first pixel, when one of the four rotation branches is taken.
\<close>

definition applyDistortion :: "frame \<Rightarrow> curveData option \<Rightarrow> jsnum \<Rightarrow> error + frame" where
  "applyDistortion video curve rot =
     (let w = videoWidth video; h = videoHeight video
      in if w = 0 \<or> h = 0 then Inl IndexSizeError
         else
           (case curve of
              None \<Rightarrow> Inl TypeError
            | Some c \<Rightarrow>
                (case lineSegments c of
                   None \<Rightarrow>
                     if rotBranch rot then Inl TypeError
                     else Inr \<lparr>videoWidth = w, videoHeight = h,
                               frame_data = distortLoop w h (frame_data video) (bounds c) [] rot\<rparr>
                 | Some segs \<Rightarrow>
                     Inr \<lparr>videoWidth = w, videoHeight = h,
                          frame_data = distortLoop w h (frame_data video) (bounds c) segs rot\<rparr>)))"

section \<open>render\<close>

text \<open>
  The drawing step of \<open>render\<close> for a video that is ready: nothing is drawn (\<open>None\<close>) for
  a video without dimensions; a missing or empty curve draws the video image itself
  (\<open>ctx.drawImage\<close>); any other curve goes through \<open>applyDistortion\<close>. This is the
  specification's \<open>warp\<close>.
\<close>

definition hasCurve :: "curveData option \<Rightarrow> bool" where
  "hasCurve curveData =
     (case curveData of
        None \<Rightarrow> False
      | Some c \<Rightarrow> (case lineSegments c of None \<Rightarrow> False | Some segs \<Rightarrow> 0 < length segs))"

definition render :: "frame \<Rightarrow> curveData option \<Rightarrow> jsnum \<Rightarrow> error + frame option" where
  "render video curveData rotation =
     (if 0 < videoWidth video \<and> 0 < videoHeight video then
        (if \<not> hasCurve curveData then Inr (Some video)
         else (case applyDistortion video curveData rotation of
                 Inl e \<Rightarrow> Inl e
               | Inr f \<Rightarrow> Inr (Some f)))
      else Inr None)"

text \<open>
  The element read for channel \<open>c\<close> of a pixel: \<open>sourceIdx\<close> itself for the first
  channel, \<open>sourceIdx + c\<close> for the other three.
\<close>

definition channelIdx :: "jsnum \<Rightarrow> nat \<Rightarrow> jsnum" where
  "channelIdx si c = (if c = 0 then si else jadd si (num c))"

section \<open>Curve objects without bounds\<close>







section \<open>Normalisation of a missing or empty curve\<close>

text \<open>
  Claim C2. \<open>convertCurveDataToSegments\<close> applied to an absent curve, to a curve whose
  \<open>lineSegments\<close> is absent, and to a curve with zero line segments returns in each case
  exactly the one-element list holding the flat mirror
  \<open>{yMin: -0.4, yMax: 0.4, z0: 0, z1: 0, z2: 0}\<close>.
\<close>

theorem normalize_flat_mirror:
  "convertCurveDataToSegments None =
     [\<lparr>yMin = Fin (- (2 / 5)), yMax = Fin (2 / 5), z0 = Fin 0, z1 = Fin 0, z2 = Fin 0\<rparr>]
   \<and> convertCurveDataToSegments (Some \<lparr>bounds = b, lineSegments = None\<rparr>) =
     [\<lparr>yMin = Fin (- (2 / 5)), yMax = Fin (2 / 5), z0 = Fin 0, z1 = Fin 0, z2 = Fin 0\<rparr>]
   \<and> convertCurveDataToSegments (Some \<lparr>bounds = b, lineSegments = Some []\<rparr>) =
     [\<lparr>yMin = Fin (- (2 / 5)), yMax = Fin (2 / 5), z0 = Fin 0, z1 = Fin 0, z2 = Fin 0\<rparr>]"
  by (simp add: convertCurveDataToSegments_def defaultSegment_def)

section \<open>The worked scenario of the normaliser\<close>

text \<open>
  Claim C3. For \<open>bounds = {x: 400, yTop: 50, yBottom: 550}\<close> and the single segment
  \<open>{x1: 400, y1: 50, x2: 300, y2: 550}\<close>, \<open>convertCurveDataToSegments\<close> returns exactly
  one physical segment, \<open>{yMin: -2, yMax: 2, z0: 0, z1: -0.125, z2: -0.25}\<close>, in exact
  arithmetic.
\<close>

theorem normalize_scenario:
  "convertCurveDataToSegments
     (Some \<lparr>bounds = \<lparr>bounds_x = Fin 400, bounds_yTop = Fin 50, bounds_yBottom = Fin 550\<rparr>,
            lineSegments = Some [\<lparr>seg_x1 = Fin 400, seg_y1 = Fin 50,
                                  seg_x2 = Fin 300, seg_y2 = Fin 550\<rparr>]\<rparr>) =
     [\<lparr>yMin = Fin (- 2), yMax = Fin 2, z0 = Fin 0, z1 = Fin (- (1 / 8)), z2 = Fin (- (1 / 4))\<rparr>]"
  by (simp add: convertCurveDataToSegments_def convertSegment_def jsub_def jmin_def jmax_def
      physicalHalfHeight_def physicalMaxDepth_def Let_def)

section \<open>The pixel loops\<close>

text \<open>
  Pixel \<open>(x, y)\<close> owns the four elements from \<open>(y * w + x) * 4\<close> on. Different
  pixels of the frame own disjoint elements, so each element of the result is decided by
  the one loop iteration of its pixel.
\<close>

lemma pixel_index_bound:
  fixes x y w h :: nat
  assumes "x < w" "y < h"
  shows "y * w + x < w * h"
proof -
  have "y * w + x < y * w + w" using assms by simp
  also have "\<dots> = Suc y * w" by simp
  also have "\<dots> \<le> h * w" using assms by (intro mult_le_mono1) simp
  finally show ?thesis by (simp add: mult.commute)
qed

lemma pixel_index_inj:
  fixes x y w x' y' :: nat
  assumes "x < w" "x' < w" "y * w + x = y' * w + x'"
  shows "y = y' \<and> x = x'"
proof -
  have "(y * w + x) div w = y" and "(y' * w + x') div w = y'"
    using assms(1,2) by simp_all
  then have "y = y'" using assms(3) by metis
  then show ?thesis using assms by simp
qed

lemma block_disjoint:
  fixes x y w x' y' c :: nat
  assumes "x < w" "x' < w" "(y, x) \<noteq> (y', x')" "c < 4"
  shows "(y * w + x) * 4 + c < (y' * w + x') * 4 \<or> (y' * w + x') * 4 + 4 \<le> (y * w + x) * 4 + c"
proof -
  have "y * w + x \<noteq> y' * w + x'"
    using pixel_index_inj [OF assms(1,2)] assms(3) by auto
  then show ?thesis using assms(4) by arith
qed

lemma copyPixel_length: "length (copyPixel w h src s x y out) = length out"
  by (simp add: copyPixel_def Let_def)

lemma copyPixel_nth_other:
  assumes "i < (y * w + x) * 4 \<or> (y * w + x) * 4 + 4 \<le> i"
  shows "copyPixel w h src s x y out ! i = out ! i"
  using assms by (auto simp: copyPixel_def Let_def)

lemma copyPixel_nth_own:
  assumes "(y * w + x) * 4 + 3 < length out" "c < 4"
  shows "copyPixel w h src s x y out ! ((y * w + x) * 4 + c) =
           (if inFrame w h s then toUint8 (readData src (channelIdx (sourceIdx w s) c))
            else out ! ((y * w + x) * 4 + c))"
proof -
  from assms(2) consider "c = 0" | "c = 1" | "c = 2" | "c = 3" by arith
  then show ?thesis
    using assms(1) by cases (simp_all add: copyPixel_def Let_def channelIdx_def num_def)
qed

lemma nested_fold_product:
  "fold (\<lambda>y. fold (\<lambda>x. f x y) xs) ys out = fold (\<lambda>(y, x). f x y) (List.product ys xs) out"
proof (induction ys arbitrary: out)
  case Nil
  show ?case by simp
next
  case (Cons y ys)
  have "fold (\<lambda>(y, x). f x y) (map (Pair y) xs) out = fold (\<lambda>x. f x y) xs out"
    by (simp add: fold_map comp_def)
  then show ?case using Cons by simp
qed

lemma pixels_length:
  "length (fold (\<lambda>(y, x). copyPixel w h src (S x y) x y) ps out) = length out"
  by (induction ps arbitrary: out) (auto simp: copyPixel_length)

lemma pixels_untouched:
  assumes "\<forall>(y, x) \<in> set ps. i < (y * w + x) * 4 \<or> (y * w + x) * 4 + 4 \<le> i"
  shows "fold (\<lambda>(y, x). copyPixel w h src (S x y) x y) ps out ! i = out ! i"
  using assms
proof (induction ps arbitrary: out)
  case Nil
  show ?case by simp
next
  case (Cons p ps)
  obtain y x where p: "p = (y, x)" by (cases p)
  have "fold (\<lambda>(y, x). copyPixel w h src (S x y) x y) (p # ps) out ! i =
        copyPixel w h src (S x y) x y out ! i"
    using Cons by (simp add: p)
  also have "\<dots> = out ! i"
    using Cons.prems by (intro copyPixel_nth_other) (simp add: p)
  finally show ?case .
qed

lemma pixels_written:
  assumes "distinct ps" "\<forall>(y', x') \<in> set ps. x' < w" "(y, x) \<in> set ps" "c < 4"
    "(y * w + x) * 4 + 3 < length out"
  shows "fold (\<lambda>(y, x). copyPixel w h src (S x y) x y) ps out ! ((y * w + x) * 4 + c) =
           (if inFrame w h (S x y)
            then toUint8 (readData src (channelIdx (sourceIdx w (S x y)) c))
            else out ! ((y * w + x) * 4 + c))"
  using assms
proof (induction ps arbitrary: out)
  case Nil
  then show ?case by simp
next
  case (Cons p ps)
  obtain y' x' where p: "p = (y', x')" by (cases p)
  let ?out' = "copyPixel w h src (S x' y') x' y' out"
  have xw: "x < w" using Cons.prems(2,3) by auto
  have x'w: "x' < w" using Cons.prems(2) by (simp add: p)
  have step: "fold (\<lambda>(y, x). copyPixel w h src (S x y) x y) (p # ps) out = 
              fold (\<lambda>(y, x). copyPixel w h src (S x y) x y) ps ?out'"
    by (simp add: p)
  show ?case
  proof (cases "(y, x) = p")
    case True
    then have notin: "(y, x) \<notin> set ps" using Cons.prems(1) by simp
    have "\<forall>(y'', x'') \<in> set ps. (y * w + x) * 4 + c < (y'' * w + x'') * 4
             \<or> (y'' * w + x'') * 4 + 4 \<le> (y * w + x) * 4 + c"
    proof (clarify)
      fix y'' x'' assume m: "(y'', x'') \<in> set ps"
        and n: "\<not> (y'' * w + x'') * 4 + 4 \<le> (y * w + x) * 4 + c"
      have "x'' < w" using Cons.prems(2) m by auto
      moreover have "(y, x) \<noteq> (y'', x'')" using m notin by auto
      ultimately show "(y * w + x) * 4 + c < (y'' * w + x'') * 4"
        using block_disjoint [OF xw _ _ Cons.prems(4), of x'' y y''] n by blast
    qed
    then have "fold (\<lambda>(y, x). copyPixel w h src (S x y) x y) ps ?out' ! ((y * w + x) * 4 + c)
        = ?out' ! ((y * w + x) * 4 + c)"
      by (rule pixels_untouched)
    also have "\<dots> = (if inFrame w h (S x y)
            then toUint8 (readData src (channelIdx (sourceIdx w (S x y)) c))
            else out ! ((y * w + x) * 4 + c))"
      using True p copyPixel_nth_own [OF Cons.prems(5) Cons.prems(4)] by simp
    finally show ?thesis using step by simp
  next
    case False
    then have m: "(y, x) \<in> set ps" using Cons.prems(3) by auto
    have ne: "(y, x) \<noteq> (y', x')" using False p by simp
    have other: "?out' ! ((y * w + x) * 4 + c) = out ! ((y * w + x) * 4 + c)"
      using block_disjoint [OF xw x'w ne Cons.prems(4)] by (intro copyPixel_nth_other)
    have "fold (\<lambda>(y, x). copyPixel w h src (S x y) x y) ps ?out' ! ((y * w + x) * 4 + c) =
           (if inFrame w h (S x y)
            then toUint8 (readData src (channelIdx (sourceIdx w (S x y)) c))
            else ?out' ! ((y * w + x) * 4 + c))"
      using Cons.prems by (intro Cons.IH) (simp_all add: m copyPixel_length)
    then show ?thesis using step other by simp
  qed
qed

lemma distortLoop_length: "length (distortLoop w h src b segs rot) = w * h * 4"
  by (simp add: distortLoop_def nested_fold_product pixels_length)

lemma distortLoop_nth:
  assumes "x < w" "y < h" "c < 4"
  shows "distortLoop w h src b segs rot ! ((y * w + x) * 4 + c) =
           (if inFrame w h (sourceCoord w h b segs rot x y)
            then toUint8 (readData src (channelIdx (sourceIdx w (sourceCoord w h b segs rot x y)) c))
            else 0)"
proof -
  have b: "(y * w + x) * 4 + 3 < w * h * 4"
    using pixel_index_bound [OF assms(1,2)] by simp
  have "distortLoop w h src b segs rot ! ((y * w + x) * 4 + c) =
      (if inFrame w h (sourceCoord w h b segs rot x y)
       then toUint8 (readData src (channelIdx (sourceIdx w (sourceCoord w h b segs rot x y)) c))
       else replicate (w * h * 4) 0 ! ((y * w + x) * 4 + c))"
    unfolding distortLoop_def nested_fold_product
    using assms b by (intro pixels_written) (auto simp: distinct_product)
  moreover have "replicate (w * h * 4) (0::byte) ! ((y * w + x) * 4 + c) = 0"
    using b assms(3) by simp
  ultimately show ?thesis by simp
qed

section \<open>Numbers that are pixel indices\<close>

lemma isFinite_iff: "isFinite a \<longleftrightarrow> (\<exists>r. a = Fin r)"
  by (cases a) simp_all

lemma jsub_Fin: "jsub (Fin a) (Fin b) = Fin (a - b)"
  by (simp add: jsub_def)

lemma jadd_num: "jadd (num a) (num b) = num (a + b)"
  by (simp add: num_def)

lemma jmul_num: "jmul (num a) (num b) = num (a * b)"
  by (simp add: num_def)

lemma jfloor_num: "jfloor (num n) = num n"
  by (simp add: num_def)

lemma Fin_numeral_num: "Fin (numeral k) = num (numeral k)"
  by (simp add: num_def)

lemma readData_num:
  "readData d (num n) = (if n < length d then Some (d ! n) else None)"
  by (simp add: readData_def num_def)

lemma inFrame_num: "x < w \<Longrightarrow> y < h \<Longrightarrow> inFrame w h (num x, num y)"
  by (simp add: inFrame_def jge_def num_def)

lemma sourceIdx_num: "sourceIdx w (num i, num j) = num ((j * w + i) * 4)"
  by (simp add: sourceIdx_def jadd_num jmul_num Fin_numeral_num)

lemma channelIdx_num: "channelIdx (num n) k = num (n + k)"
  by (simp add: channelIdx_def jadd_num)

lemma inFrame_integral:
  assumes "inFrame w h (sx, sy)"
    and "\<forall>r. sx = Fin r \<longrightarrow> r \<in> \<int>" and "\<forall>r. sy = Fin r \<longrightarrow> r \<in> \<int>"
  shows "\<exists>i j. i < w \<and> j < h \<and> sx = num i \<and> sy = num j"
proof -
  have coord: "\<exists>i. i < n \<and> s = num i"
    if a: "jge s (Fin 0)" and b: "jlt s (num n)" and c: "\<forall>r. s = Fin r \<longrightarrow> r \<in> \<int>"
    for s n
  proof (cases s)
    case (Fin r)
    then obtain z :: int where z: "r = of_int z" using c by (auto elim: Ints_cases)
    have "0 \<le> z" using a Fin z by (simp add: jge_def)
    then obtain i :: nat where i: "z = int i" using nonneg_int_cases by blast
    have "i < n" using b Fin z i by (simp add: num_def)
    then show ?thesis using Fin z i by (auto simp: num_def)
  next
    case PInf
    then show ?thesis using b by simp
  next
    case NInf
    then show ?thesis using a by (simp add: jge_def)
  next
    case NaN
    then show ?thesis using b by simp
  qed
  from assms(1) have "jge sx (Fin 0)" "jlt sx (num w)" "jge sy (Fin 0)" "jlt sy (num h)"
    by (simp_all add: inFrame_def)
  then show ?thesis using coord assms(2,3) by metis
qed

lemma jfloor_integral: "jfloor a = Fin r \<Longrightarrow> r \<in> \<int>"
  by (cases a) auto

lemma num_integral: "num n = Fin r \<Longrightarrow> r \<in> \<int>"
  by (auto simp: num_def)

lemma sourceCoord_integral:
  "(\<forall>r. fst (sourceCoord w h b segs rot x y) = Fin r \<longrightarrow> r \<in> \<int>) \<and>
   (\<forall>r. snd (sourceCoord w h b segs rot x y) = Fin r \<longrightarrow> r \<in> \<int>)"
  by (auto simp: sourceCoord_def Let_def dest: jfloor_integral num_integral)

lemma source_read:
  assumes len: "length src = w * h * 4" and inf: "inFrame w h (sourceCoord w h b segs rot x y)"
    and k: "k < 4"
  shows "\<exists>i j. i < w \<and> j < h \<and> sourceCoord w h b segs rot x y = (num i, num j) \<and>
           (j * w + i) * 4 + k < length src \<and>
           readData src (channelIdx (sourceIdx w (sourceCoord w h b segs rot x y)) k) =
             Some (src ! ((j * w + i) * 4 + k))"
proof -
  obtain sx sy where s: "sourceCoord w h b segs rot x y = (sx, sy)"
    by (cases "sourceCoord w h b segs rot x y")
  have "\<forall>r. sx = Fin r \<longrightarrow> r \<in> \<int>" "\<forall>r. sy = Fin r \<longrightarrow> r \<in> \<int>"
    using sourceCoord_integral [of w h b segs rot x y] s by simp_all
  with inf s obtain i j where ij: "i < w" "j < h" "sx = num i" "sy = num j"
    using inFrame_integral [of w h sx sy] by auto
  have bnd: "(j * w + i) * 4 + k < length src"
    using pixel_index_bound [OF ij(1,2)] k len by simp
  then show ?thesis
    using ij s by (auto simp: sourceIdx_num channelIdx_num readData_num)
qed

lemma distortLoop_identity:
  assumes len: "length src = w * h * 4"
    and self: "\<And>x y. x < w \<Longrightarrow> y < h \<Longrightarrow> sourceCoord w h b segs rot x y = (num x, num y)"
  shows "distortLoop w h src b segs rot = src"
proof (rule nth_equalityI)
  show "length (distortLoop w h src b segs rot) = length src"
    by (simp add: distortLoop_length len)
next
  fix n assume "n < length (distortLoop w h src b segs rot)"
  then have n: "n < w * h * 4" by (simp add: distortLoop_length)
  then have w0: "0 < w" by (cases w) simp_all
  define p where "p = n div 4"
  define k where "k = n mod 4"
  define y where "y = p div w"
  define x where "x = p mod w"
  have k4: "k < 4" by (simp add: k_def)
  have pwh: "p < w * h" using n by (simp add: p_def)
  have xw: "x < w" using w0 by (simp add: x_def)
  have yh: "y < h" using pwh w0 by (simp add: y_def less_mult_imp_div_less mult.commute)
  have neq: "n = (y * w + x) * 4 + k" by (simp add: p_def k_def y_def x_def)
  have b: "(y * w + x) * 4 + k < length src" using n neq len by simp
  have "distortLoop w h src b segs rot ! ((y * w + x) * 4 + k) =
          toUint8 (readData src (channelIdx (sourceIdx w (num x, num y)) k))"
    unfolding distortLoop_nth [OF xw yh k4] self [OF xw yh]
    using inFrame_num [OF xw yh] by simp
  also have "\<dots> = src ! ((y * w + x) * 4 + k)"
    unfolding sourceIdx_num channelIdx_num readData_num using b by (simp add: toUint8_def)
  finally show "distortLoop w h src b segs rot ! n = src ! n" using neq by simp
qed

lemma jsub_zero: "jsub (num x) (Fin 0) = num x"
  by (simp add: jsub_def num_def)

lemma jadd_zero: "jadd (num x) (Fin 0) = num x"
  by (simp add: num_def)

lemma jseq_eq: "jseq a b \<Longrightarrow> a = b"
  by (simp add: jseq_def)

lemma zero_offset:
  assumes "isFinite bx" and "bx \<noteq> Fin 0"
  shows "jmul (jmul (jdiv (jsub bx bx) bx) (num scale)) (Fin (1 / 2)) = Fin 0"
  using assms by (cases bx) (simp_all add: jsub_def num_def)

lemma nan_offset:
  assumes "bx = Fin 0 \<or> \<not> isFinite bx"
  shows "jmul (jmul (jdiv (jsub bx bx) bx) (num scale)) (Fin (1 / 2)) = NaN"
  using assms by (cases bx) (auto simp: jsub_def)

section \<open>The identity on a missing or empty curve\<close>

text \<open>
  Claim C1. For every frame and every rotation (0, 90, 180, 270 or any other value),
  drawing with a curve whose \<open>lineSegments\<close> is empty gives back the input frame: the
  same dimensions and the same four channel values of every pixel. The same holds for a
  curve without \<open>lineSegments\<close> and for no curve at all.
\<close>

theorem warp_empty_curve_identity:
  assumes "validFrame video"
  shows "render video (Some \<lparr>bounds = b, lineSegments = Some []\<rparr>) rot = Inr (Some video)
       \<and> render video (Some \<lparr>bounds = b, lineSegments = None\<rparr>) rot = Inr (Some video)
       \<and> render video None rot = Inr (Some video)"
  using assms by (simp add: render_def hasCurve_def validFrame_def)

theorem warp_empty_curve_identity_witness:
  "validFrame \<lparr>videoWidth = 2, videoHeight = 1, frame_data = [10, 20, 30, 40, 50, 60, 70, 80]\<rparr>
   \<and> render \<lparr>videoWidth = 2, videoHeight = 1, frame_data = [10, 20, 30, 40, 50, 60, 70, 80]\<rparr>
        (Some \<lparr>bounds = \<lparr>bounds_x = Fin 400, bounds_yTop = Fin 50, bounds_yBottom = Fin 550\<rparr>,
               lineSegments = Some []\<rparr>) (Fin 90)
      = Inr (Some \<lparr>videoWidth = 2, videoHeight = 1,
                    frame_data = [10, 20, 30, 40, 50, 60, 70, 80]\<rparr>)"
proof -
  have v: "validFrame \<lparr>videoWidth = 2, videoHeight = 1,
                       frame_data = [10, 20, 30, 40, 50, 60, 70, 80]\<rparr>"
    by (simp add: validFrame_def)
  show ?thesis using v warp_empty_curve_identity [OF v] by simp
qed

text \<open>
  \<open>render\<close> never hands an empty list to \<open>applyDistortion\<close>. Called on one all the
  same, \<open>applyDistortion\<close> finds no segment for any pixel and returns the input frame
  too, for a \<open>bounds.x\<close> that is finite and not zero.
\<close>

lemma empty_list_displacement:
  assumes "isFinite (bounds_x b)" and "bounds_x b \<noteq> Fin 0"
  shows "displacement b [] curveY scale = Fin 0"
  using zero_offset [OF assms] by (simp add: displacement_def)

lemma applyDistortion_empty_list:
  assumes "validFrame video" and "isFinite (bounds_x b)" and "bounds_x b \<noteq> Fin 0"
  shows "applyDistortion video (Some \<lparr>bounds = b, lineSegments = Some []\<rparr>) rot = Inr video"
proof -
  have len: "length (frame_data video) = videoWidth video * videoHeight video * 4"
    and pos: "videoWidth video \<noteq> 0" "videoHeight video \<noteq> 0"
    using assms(1) by (simp_all add: validFrame_def)
  have s: "sourceCoord (videoWidth video) (videoHeight video) b [] rot x y = (num x, num y)"
    for x y
    by (simp add: sourceCoord_def Let_def empty_list_displacement [OF assms(2,3)]
        jsub_zero jadd_zero jfloor_num)
  have "distortLoop (videoWidth video) (videoHeight video) (frame_data video) b [] rot
          = frame_data video"
    by (rule distortLoop_identity [OF len]) (rule s)
  then show ?thesis using pos by (simp add: applyDistortion_def Let_def)
qed

section \<open>A rotation outside the four branches\<close>

lemma sourceCoord_no_branch:
  "\<not> rotBranch rot \<Longrightarrow> sourceCoord w h b segs rot x y = (num x, num y)"
  by (simp add: sourceCoord_def rotBranch_def)

text \<open>
  Claim C10. For a rotation that is none of 0, 90, 180 and 270, \<open>applyDistortion\<close>
  takes none of its four branches: the source coordinate of every pixel is the pixel
  itself, and the result is the input frame, not an error and not a partly written
  frame.
\<close>

theorem unknown_rotation_identity:
  assumes "validFrame video"
    and "\<not> jseq rot (Fin 0)" "\<not> jseq rot (Fin 90)" "\<not> jseq rot (Fin 180)" "\<not> jseq rot (Fin 270)"
  shows "applyDistortion video (Some c) rot = Inr video \<and>
         (\<forall>segs x y. sourceCoord (videoWidth video) (videoHeight video) (bounds c) segs rot x y
                      = (num x, num y))"
proof -
  have nb: "\<not> rotBranch rot" using assms(2-5) by (simp add: rotBranch_def)
  have len: "length (frame_data video) = videoWidth video * videoHeight video * 4"
    and pos: "videoWidth video \<noteq> 0" "videoHeight video \<noteq> 0"
    using assms(1) by (simp_all add: validFrame_def)
  have loop: "distortLoop (videoWidth video) (videoHeight video) (frame_data video) (bounds c)
                segs rot = frame_data video" for segs
    by (rule distortLoop_identity [OF len]) (rule sourceCoord_no_branch [OF nb])
  have "applyDistortion video (Some c) rot = Inr video"
    using pos nb by (simp add: applyDistortion_def Let_def loop split: option.split)
  then show ?thesis using sourceCoord_no_branch [OF nb] by simp
qed

theorem unknown_rotation_identity_witness:
  "validFrame \<lparr>videoWidth = 2, videoHeight = 1, frame_data = [10, 20, 30, 40, 50, 60, 70, 80]\<rparr>
   \<and> \<not> jseq (Fin 45) (Fin 0) \<and> \<not> jseq (Fin 45) (Fin 90) \<and> \<not> jseq (Fin 45) (Fin 180)
   \<and> \<not> jseq (Fin 45) (Fin 270)
   \<and> applyDistortion
        \<lparr>videoWidth = 2, videoHeight = 1, frame_data = [10, 20, 30, 40, 50, 60, 70, 80]\<rparr>
        (Some \<lparr>bounds = \<lparr>bounds_x = Fin 400, bounds_yTop = Fin 50, bounds_yBottom = Fin 550\<rparr>,
               lineSegments = Some [\<lparr>seg_x1 = Fin 0, seg_y1 = Fin 50,
                                     seg_x2 = Fin 0, seg_y2 = Fin 550\<rparr>]\<rparr>) (Fin 45)
      = Inr \<lparr>videoWidth = 2, videoHeight = 1, frame_data = [10, 20, 30, 40, 50, 60, 70, 80]\<rparr>"
proof -
  have v: "validFrame \<lparr>videoWidth = 2, videoHeight = 1,
                       frame_data = [10, 20, 30, 40, 50, 60, 70, 80]\<rparr>"
    by (simp add: validFrame_def)
  have r: "\<not> jseq (Fin 45) (Fin 0)" "\<not> jseq (Fin 45) (Fin 90)" "\<not> jseq (Fin 45) (Fin 180)"
    "\<not> jseq (Fin 45) (Fin 270)"
    by (simp_all add: jseq_def)
  show ?thesis using v r unknown_rotation_identity [OF v r] by simp
qed

section \<open>Source coordinates outside the frame\<close>

text \<open>
  Claim C6. For every output pixel whose source coordinate fails the bounds test (it lies
  outside \<open>[0, w) \<times> [0, h)\<close>, or is \<open>NaN\<close>), each of the four channels keeps the 0 of
  the fresh output array. For every other pixel, the source coordinate is a pixel
  \<open>(i, j)\<close> of the frame, each of the four reads hits an element of the source array
  (it never returns \<open>undefined\<close>), and that element is what the output pixel gets.
\<close>

theorem out_of_frame_untouched:
  assumes "validFrame video" and "lineSegments c = Some segs"
    and "x < videoWidth video" and "y < videoHeight video" and "k < 4"
  shows "\<exists>out. applyDistortion video (Some c) rot = Inr out \<and>
           (\<not> inFrame (videoWidth video) (videoHeight video)
                (sourceCoord (videoWidth video) (videoHeight video) (bounds c) segs rot x y) \<longrightarrow>
              frame_data out ! ((y * videoWidth video + x) * 4 + k) = 0) \<and>
           (inFrame (videoWidth video) (videoHeight video)
                (sourceCoord (videoWidth video) (videoHeight video) (bounds c) segs rot x y) \<longrightarrow>
              (\<exists>i j. i < videoWidth video \<and> j < videoHeight video \<and>
                 sourceCoord (videoWidth video) (videoHeight video) (bounds c) segs rot x y
                   = (num i, num j) \<and>
                 (j * videoWidth video + i) * 4 + k < length (frame_data video) \<and>
                 readData (frame_data video)
                   (channelIdx (sourceIdx (videoWidth video)
                      (sourceCoord (videoWidth video) (videoHeight video) (bounds c) segs rot x y)) k)
                   = Some (frame_data video ! ((j * videoWidth video + i) * 4 + k)) \<and>
                 frame_data out ! ((y * videoWidth video + x) * 4 + k)
                   = frame_data video ! ((j * videoWidth video + i) * 4 + k)))"
proof -
  define w where "w = videoWidth video"
  define h where "h = videoHeight video"
  define src where "src = frame_data video"
  define s where "s = sourceCoord w h (bounds c) segs rot x y"
  define out where "out = \<lparr>videoWidth = w, videoHeight = h,
                            frame_data = distortLoop w h src (bounds c) segs rot\<rparr>"
  have len: "length src = w * h * 4" and pos: "w \<noteq> 0" "h \<noteq> 0"
    using assms(1) by (simp_all add: validFrame_def w_def h_def src_def)
  have xw: "x < w" and yh: "y < h" using assms(3,4) by (simp_all add: w_def h_def)
  have app: "applyDistortion video (Some c) rot = Inr out"
    using pos assms(2) by (simp add: applyDistortion_def Let_def out_def w_def h_def src_def)
  have nth: "frame_data out ! ((y * w + x) * 4 + k) =
      (if inFrame w h s then toUint8 (readData src (channelIdx (sourceIdx w s) k)) else 0)"
    unfolding out_def s_def using distortLoop_nth [OF xw yh assms(5)] by simp
  have untouched: "\<not> inFrame w h s \<longrightarrow> frame_data out ! ((y * w + x) * 4 + k) = 0"
    using nth by simp
  have copied: "inFrame w h s \<longrightarrow>
      (\<exists>i j. i < w \<and> j < h \<and> s = (num i, num j) \<and> (j * w + i) * 4 + k < length src \<and>
         readData src (channelIdx (sourceIdx w s) k) = Some (src ! ((j * w + i) * 4 + k)) \<and>
         frame_data out ! ((y * w + x) * 4 + k) = src ! ((j * w + i) * 4 + k))"
  proof
    assume inf: "inFrame w h s"
    from source_read [OF len inf [unfolded s_def] assms(5)]
    obtain i j where ij: "i < w" "j < h" "s = (num i, num j)"
      "(j * w + i) * 4 + k < length src"
      "readData src (channelIdx (sourceIdx w s) k) = Some (src ! ((j * w + i) * 4 + k))"
      unfolding s_def by blast
    have "frame_data out ! ((y * w + x) * 4 + k) = src ! ((j * w + i) * 4 + k)"
      using nth inf ij(5) by (simp add: toUint8_def)
    with ij show "\<exists>i j. i < w \<and> j < h \<and> s = (num i, num j) \<and> (j * w + i) * 4 + k < length src \<and>
         readData src (channelIdx (sourceIdx w s) k) = Some (src ! ((j * w + i) * 4 + k)) \<and>
         frame_data out ! ((y * w + x) * 4 + k) = src ! ((j * w + i) * 4 + k)"
      by blast
  qed
  show ?thesis
    using app untouched copied unfolding w_def h_def src_def s_def by blast
qed

theorem out_of_frame_untouched_witness:
  "validFrame \<lparr>videoWidth = 2, videoHeight = 1, frame_data = [10, 20, 30, 40, 50, 60, 70, 80]\<rparr>
   \<and> sourceCoord 2 1 \<lparr>bounds_x = Fin 400, bounds_yTop = Fin 50, bounds_yBottom = Fin 550\<rparr>
        [\<lparr>seg_x1 = Fin 0, seg_y1 = Fin 50, seg_x2 = Fin 0, seg_y2 = Fin 550\<rparr>] (Fin 0) 0 0
      = (Fin (- 1), Fin 0)
   \<and> \<not> inFrame 2 1 (Fin (- 1), Fin 0)
   \<and> (\<exists>out. applyDistortion
        \<lparr>videoWidth = 2, videoHeight = 1, frame_data = [10, 20, 30, 40, 50, 60, 70, 80]\<rparr>
        (Some \<lparr>bounds = \<lparr>bounds_x = Fin 400, bounds_yTop = Fin 50, bounds_yBottom = Fin 550\<rparr>,
               lineSegments = Some [\<lparr>seg_x1 = Fin 0, seg_y1 = Fin 50,
                                     seg_x2 = Fin 0, seg_y2 = Fin 550\<rparr>]\<rparr>) (Fin 0) = Inr out
        \<and> frame_data out ! 3 = 0)"
proof -
  let ?video = "\<lparr>videoWidth = 2, videoHeight = 1,
                 frame_data = [10, 20, 30, 40, 50, 60, 70, 80 :: byte]\<rparr>"
  let ?b = "\<lparr>bounds_x = Fin 400, bounds_yTop = Fin 50, bounds_yBottom = Fin 550\<rparr>"
  let ?seg = "\<lparr>seg_x1 = Fin 0, seg_y1 = Fin 50, seg_x2 = Fin 0, seg_y2 = Fin 550\<rparr>"
  have v: "validFrame ?video" by (simp add: validFrame_def)
  have s: "sourceCoord 2 1 ?b [?seg] (Fin 0) 0 0 = (Fin (- 1), Fin 0)"
    by (simp add: sourceCoord_def displacement_def segContains_def segCurveX_def segT_def
        jmin_def jmax_def jge_def jseq_def jsub_def jor_def truthy_def num_def Let_def)
  have n: "\<not> inFrame 2 1 (Fin (- 1), Fin 0)"
    by (simp add: inFrame_def jge_def)
  have "\<exists>out. applyDistortion ?video (Some \<lparr>bounds = ?b, lineSegments = Some [?seg]\<rparr>) (Fin 0)
           = Inr out \<and> frame_data out ! 3 = 0"
    using out_of_frame_untouched [OF v, of "\<lparr>bounds = ?b, lineSegments = Some [?seg]\<rparr>"
        "[?seg]" 0 0 3 "Fin 0"] s n
    by simp
  then show ?thesis using v s n by simp
qed

section \<open>The segment search\<close>

lemma findCurveX_first:
  assumes "\<forall>s \<in> set pre. \<not> segContains curveY s" and "segContains curveY seg"
  shows "findCurveX cx curveY (pre @ seg # post) = segCurveX curveY seg"
  using assms by (induction pre) simp_all

lemma findCurveX_none:
  assumes "\<forall>s \<in> set segs. \<not> segContains curveY s"
  shows "findCurveX cx curveY segs = cx"
  using assms by (induction segs) simp_all

text \<open>
  Claim C4, as amended. The segment used for a pixel is the first one in input order
  whose interval contains \<open>curveY\<close>: the result does not depend on the segments after
  it, whether or not they contain \<open>curveY\<close> too. When no segment contains \<open>curveY\<close>,
  \<open>curveX\<close> is \<open>bounds.x\<close>; the displacement is then zero, and the pixel its own source,
  when \<open>bounds.x\<close> is finite and not zero. For \<open>bounds.x = 0\<close> or a \<open>bounds.x\<close> that is
  not finite the displacement is \<open>NaN\<close> instead.
\<close>

theorem first_match_segment_lookup:
  "((\<forall>s \<in> set pre. \<not> segContains curveY s) \<and> segContains curveY seg \<longrightarrow>
      findCurveX (bounds_x b) curveY (pre @ seg # post) = segCurveX curveY seg \<and>
      displacement b (pre @ seg # post) curveY scale = displacement b [seg] curveY scale)
   \<and> ((\<forall>s \<in> set segs. \<not> segContains curveY s) \<longrightarrow>
      findCurveX (bounds_x b) curveY segs = bounds_x b \<and>
      (isFinite (bounds_x b) \<and> bounds_x b \<noteq> Fin 0 \<longrightarrow>
         displacement b segs curveY scale = Fin 0 \<and>
         jfloor (jsub (num x) (displacement b segs curveY scale)) = num x) \<and>
      (bounds_x b = Fin 0 \<or> \<not> isFinite (bounds_x b) \<longrightarrow>
         displacement b segs curveY scale = NaN))"
proof (intro conjI impI)
  assume a: "(\<forall>s \<in> set pre. \<not> segContains curveY s) \<and> segContains curveY seg"
  then show f: "findCurveX (bounds_x b) curveY (pre @ seg # post) = segCurveX curveY seg"
    by (simp add: findCurveX_first)
  from a have "findCurveX (bounds_x b) curveY [seg] = segCurveX curveY seg" by simp
  with f show "displacement b (pre @ seg # post) curveY scale = displacement b [seg] curveY scale"
    by (simp add: displacement_def)
next
  assume n: "\<forall>s \<in> set segs. \<not> segContains curveY s"
  then show f: "findCurveX (bounds_x b) curveY segs = bounds_x b"
    by (rule findCurveX_none)
  assume v: "isFinite (bounds_x b) \<and> bounds_x b \<noteq> Fin 0"
  then show d: "displacement b segs curveY scale = Fin 0"
    using f by (simp add: displacement_def zero_offset)
  show "jfloor (jsub (num x) (displacement b segs curveY scale)) = num x"
    by (simp add: d jsub_zero jfloor_num)
next
  assume n: "\<forall>s \<in> set segs. \<not> segContains curveY s"
    and m: "bounds_x b = Fin 0 \<or> \<not> isFinite (bounds_x b)"
  have "findCurveX (bounds_x b) curveY segs = bounds_x b"
    using n by (rule findCurveX_none)
  then show "displacement b segs curveY scale = NaN"
    using nan_offset [OF m] by (simp add: displacement_def)
qed

theorem first_match_segment_lookup_witness:
  "\<not> segContains (Fin 100)
       \<lparr>seg_x1 = Fin 390, seg_y1 = Fin 0, seg_x2 = Fin 380, seg_y2 = Fin 50\<rparr>
   \<and> segContains (Fin 100)
       \<lparr>seg_x1 = Fin 300, seg_y1 = Fin 200, seg_x2 = Fin 200, seg_y2 = Fin 0\<rparr>
   \<and> segContains (Fin 100)
       \<lparr>seg_x1 = Fin 100, seg_y1 = Fin 50, seg_x2 = Fin 0, seg_y2 = Fin 150\<rparr>
   \<and> findCurveX (Fin 400) (Fin 100)
       [\<lparr>seg_x1 = Fin 390, seg_y1 = Fin 0, seg_x2 = Fin 380, seg_y2 = Fin 50\<rparr>,
        \<lparr>seg_x1 = Fin 300, seg_y1 = Fin 200, seg_x2 = Fin 200, seg_y2 = Fin 0\<rparr>,
        \<lparr>seg_x1 = Fin 100, seg_y1 = Fin 50, seg_x2 = Fin 0, seg_y2 = Fin 150\<rparr>] = Fin 250
   \<and> findCurveX (Fin 400) (Fin 60)
       [\<lparr>seg_x1 = Fin 390, seg_y1 = Fin 0, seg_x2 = Fin 380, seg_y2 = Fin 50\<rparr>] = Fin 400
   \<and> displacement \<lparr>bounds_x = Fin 400, bounds_yTop = Fin 50, bounds_yBottom = Fin 550\<rparr>
       [\<lparr>seg_x1 = Fin 390, seg_y1 = Fin 0, seg_x2 = Fin 380, seg_y2 = Fin 50\<rparr>] (Fin 60) 640
       = Fin 0"
  using first_match_segment_lookup
    [of "[\<lparr>seg_x1 = Fin 390, seg_y1 = Fin 0, seg_x2 = Fin 380, seg_y2 = Fin 50\<rparr>]"
        "Fin 100"
        "\<lparr>seg_x1 = Fin 300, seg_y1 = Fin 200, seg_x2 = Fin 200, seg_y2 = Fin 0\<rparr>"
        "\<lparr>bounds_x = Fin 400, bounds_yTop = Fin 50, bounds_yBottom = Fin 550\<rparr>"
        "[\<lparr>seg_x1 = Fin 100, seg_y1 = Fin 50, seg_x2 = Fin 0, seg_y2 = Fin 150\<rparr>]"
        640
        "[\<lparr>seg_x1 = Fin 390, seg_y1 = Fin 0, seg_x2 = Fin 380, seg_y2 = Fin 50\<rparr>]"
        0]
    first_match_segment_lookup
    [of "[]" "Fin 60"
        "\<lparr>seg_x1 = Fin 300, seg_y1 = Fin 200, seg_x2 = Fin 200, seg_y2 = Fin 0\<rparr>"
        "\<lparr>bounds_x = Fin 400, bounds_yTop = Fin 50, bounds_yBottom = Fin 550\<rparr>"
        "[]" 640
        "[\<lparr>seg_x1 = Fin 390, seg_y1 = Fin 0, seg_x2 = Fin 380, seg_y2 = Fin 50\<rparr>]"
        0]
  by (simp add: segContains_def segCurveX_def segT_def jmin_def jmax_def jge_def jsub_def
      jor_def truthy_def Let_def)

text \<open>
  The claim as it was stated promises zero displacement whenever no segment matches. With
  \<open>bounds.x = 0\<close> the offset is \<open>0 / 0\<close>: the displacement and the source column are
  \<open>NaN\<close>.
\<close>

theorem zero_width_displacement_counterexample:
  "\<not> segContains (Fin 0) \<lparr>seg_x1 = Fin 0, seg_y1 = Fin 5, seg_x2 = Fin 0, seg_y2 = Fin 6\<rparr>
   \<and> findCurveX (Fin 0) (Fin 0)
        [\<lparr>seg_x1 = Fin 0, seg_y1 = Fin 5, seg_x2 = Fin 0, seg_y2 = Fin 6\<rparr>] = Fin 0
   \<and> displacement \<lparr>bounds_x = Fin 0, bounds_yTop = Fin 0, bounds_yBottom = Fin 1\<rparr>
        [\<lparr>seg_x1 = Fin 0, seg_y1 = Fin 5, seg_x2 = Fin 0, seg_y2 = Fin 6\<rparr>] (Fin 0) 1 = NaN
   \<and> sourceCoord 1 1 \<lparr>bounds_x = Fin 0, bounds_yTop = Fin 0, bounds_yBottom = Fin 1\<rparr>
        [\<lparr>seg_x1 = Fin 0, seg_y1 = Fin 5, seg_x2 = Fin 0, seg_y2 = Fin 6\<rparr>] (Fin 0) 0 0
        = (NaN, Fin 0)"
  by (simp add: segContains_def jmin_def jmax_def jge_def displacement_def sourceCoord_def
      jseq_def jsub_def num_def Let_def)

section \<open>The guarded denominator\<close>

lemma jle_antisym: "jle a b \<Longrightarrow> jle b a \<Longrightarrow> a = b"
  by (cases a; cases b) simp_all

lemma jle_not_NaN: "jle a b \<Longrightarrow> a \<noteq> NaN \<and> b \<noteq> NaN"
  by (cases a; cases b) simp_all

lemma jdiv_one: "jdiv a (Fin 1) = a"
  by (cases a) simp_all

lemma jsub_self_falsy: "\<not> truthy (jsub a a)"
  by (cases a) (simp_all add: jsub_def truthy_def)

lemma jsub_truthy:
  assumes "a \<noteq> NaN" "b \<noteq> NaN" "a \<noteq> b"
  shows "truthy (jsub a b)"
  using assms by (cases a; cases b) (simp_all add: jsub_def truthy_def)

lemma segContains_not_NaN:
  assumes "segContains curveY seg"
  shows "seg_y1 seg \<noteq> NaN \<and> seg_y2 seg \<noteq> NaN \<and> curveY \<noteq> NaN"
proof -
  from assms have "jle (jmin (seg_y1 seg) (seg_y2 seg)) curveY"
    by (simp add: segContains_def jge_def)
  then have "jmin (seg_y1 seg) (seg_y2 seg) \<noteq> NaN \<and> curveY \<noteq> NaN"
    by (rule jle_not_NaN)
  then show ?thesis by (auto simp: jmin_def)
qed

text \<open>
  Claim C5, as amended. For a segment that contains \<open>curveY\<close>: when \<open>y2 == y1\<close> the
  denominator is replaced by 1, so \<open>t = curveY - y1\<close> and
  \<open>curveX = x1 + (curveY - y1) * (x2 - x1)\<close>; for a finite \<open>y1\<close> this is \<open>t = 0\<close>, and no
  \<open>NaN\<close>; for \<open>y1 == y2\<close> infinite it is \<open>NaN\<close>, from the numerator
  \<open>Infinity - Infinity\<close>. When \<open>y2 != y1\<close>, \<open>t = (curveY - y1) / (y2 - y1)\<close>.
\<close>

theorem degenerate_segment_parameter:
  assumes "segContains curveY seg"
  shows "(jseq (seg_y2 seg) (seg_y1 seg) \<longrightarrow>
            segT curveY seg = jsub curveY (seg_y1 seg) \<and>
            segCurveX curveY seg =
              jadd (seg_x1 seg) (jmul (jsub curveY (seg_y1 seg)) (jsub (seg_x2 seg) (seg_x1 seg))) \<and>
            (isFinite (seg_y1 seg) \<longrightarrow> segT curveY seg = Fin 0) \<and>
            (\<not> isFinite (seg_y1 seg) \<longrightarrow> segT curveY seg = NaN))
       \<and> (\<not> jseq (seg_y2 seg) (seg_y1 seg) \<longrightarrow>
            segT curveY seg = jdiv (jsub curveY (seg_y1 seg)) (jsub (seg_y2 seg) (seg_y1 seg)))"
proof (intro conjI impI)
  assume e: "jseq (seg_y2 seg) (seg_y1 seg)"
  then have eq: "seg_y2 seg = seg_y1 seg" by (simp add: jseq_def)
  then have d: "jor (jsub (seg_y2 seg) (seg_y1 seg)) (Fin 1) = Fin 1"
    by (simp add: jor_def jsub_self_falsy)
  show t: "segT curveY seg = jsub curveY (seg_y1 seg)"
    by (simp add: segT_def d jdiv_one)
  show "segCurveX curveY seg =
      jadd (seg_x1 seg) (jmul (jsub curveY (seg_y1 seg)) (jsub (seg_x2 seg) (seg_x1 seg)))"
    by (simp add: segCurveX_def t)
  have n: "seg_y1 seg \<noteq> NaN" using segContains_not_NaN [OF assms] by simp
  have "jle (seg_y1 seg) curveY" "jle curveY (seg_y1 seg)"
    using assms eq n by (auto simp: segContains_def jmin_def jmax_def jge_def split: if_splits)
  then have c: "curveY = seg_y1 seg" by (intro jle_antisym)
  show "segT curveY seg = Fin 0" if "isFinite (seg_y1 seg)"
    using that t c by (cases "seg_y1 seg") (simp_all add: jsub_def)
  show "segT curveY seg = NaN" if "\<not> isFinite (seg_y1 seg)"
    using that t c by (cases "seg_y1 seg") (simp_all add: jsub_def)
next
  assume ne: "\<not> jseq (seg_y2 seg) (seg_y1 seg)"
  have nn: "seg_y1 seg \<noteq> NaN" "seg_y2 seg \<noteq> NaN"
    using segContains_not_NaN [OF assms] by simp_all
  then have "seg_y2 seg \<noteq> seg_y1 seg" using ne by (simp add: jseq_def)
  then have "truthy (jsub (seg_y2 seg) (seg_y1 seg))"
    using nn by (intro jsub_truthy)
  then show "segT curveY seg = jdiv (jsub curveY (seg_y1 seg)) (jsub (seg_y2 seg) (seg_y1 seg))"
    by (simp add: segT_def jor_def)
qed

theorem degenerate_segment_parameter_witness:
  "segContains (Fin 120) \<lparr>seg_x1 = Fin 300, seg_y1 = Fin 120, seg_x2 = Fin 350, seg_y2 = Fin 120\<rparr>
   \<and> segT (Fin 120) \<lparr>seg_x1 = Fin 300, seg_y1 = Fin 120, seg_x2 = Fin 350, seg_y2 = Fin 120\<rparr>
       = Fin 0
   \<and> segCurveX (Fin 120) \<lparr>seg_x1 = Fin 300, seg_y1 = Fin 120, seg_x2 = Fin 350, seg_y2 = Fin 120\<rparr>
       = Fin 300
   \<and> segContains (Fin 100) \<lparr>seg_x1 = Fin 300, seg_y1 = Fin 200, seg_x2 = Fin 200, seg_y2 = Fin 0\<rparr>
   \<and> segT (Fin 100) \<lparr>seg_x1 = Fin 300, seg_y1 = Fin 200, seg_x2 = Fin 200, seg_y2 = Fin 0\<rparr>
       = Fin (1 / 2)"
  using degenerate_segment_parameter
    [of "Fin 120" "\<lparr>seg_x1 = Fin 300, seg_y1 = Fin 120, seg_x2 = Fin 350, seg_y2 = Fin 120\<rparr>"]
    degenerate_segment_parameter
    [of "Fin 100" "\<lparr>seg_x1 = Fin 300, seg_y1 = Fin 200, seg_x2 = Fin 200, seg_y2 = Fin 0\<rparr>"]
  by (simp add: segContains_def jmin_def jmax_def jge_def jseq_def jsub_def Let_def)

text \<open>
  The claim as it was stated has no \<open>NaN\<close> from the guarded division. A segment with
  \<open>y1 == y2 == Infinity\<close> is matched by \<open>curveY = Infinity\<close>, the value of row 1 of a
  640 by 480 frame under \<open>bounds.yTop = 0\<close> and \<open>bounds.yBottom = Infinity\<close>: there
  \<open>t = (Infinity - Infinity) / 1\<close> is \<open>NaN\<close>, and so are \<open>curveX\<close> and the source column of
  the pixel.
\<close>

theorem infinite_degenerate_segment_counterexample:
  "jadd (Fin 0) (jmul (jdiv (num 1) (num 480)) (jsub PInf (Fin 0))) = PInf
   \<and> jseq PInf PInf
   \<and> segContains PInf \<lparr>seg_x1 = Fin 320, seg_y1 = PInf, seg_x2 = Fin 300, seg_y2 = PInf\<rparr>
   \<and> segT PInf \<lparr>seg_x1 = Fin 320, seg_y1 = PInf, seg_x2 = Fin 300, seg_y2 = PInf\<rparr> = NaN
   \<and> segCurveX PInf \<lparr>seg_x1 = Fin 320, seg_y1 = PInf, seg_x2 = Fin 300, seg_y2 = PInf\<rparr> = NaN
   \<and> sourceCoord 640 480 \<lparr>bounds_x = Fin 320, bounds_yTop = Fin 0, bounds_yBottom = PInf\<rparr>
        [\<lparr>seg_x1 = Fin 320, seg_y1 = PInf, seg_x2 = Fin 300, seg_y2 = PInf\<rparr>] (Fin 0) 0 1
        = (NaN, Fin 1)"
  by (simp add: sourceCoord_def displacement_def segContains_def segCurveX_def segT_def
      jmin_def jmax_def jge_def jseq_def jsub_def jor_def truthy_def num_def Let_def)

section \<open>A straight curve on the centerline\<close>

lemma straight_curve_displacement:
  assumes x1: "jseq (seg_x1 seg) (bounds_x b)" and x2: "jseq (seg_x2 seg) (bounds_x b)"
    and y1: "jseq (seg_y1 seg) (bounds_yTop b)" and y2: "jseq (seg_y2 seg) (bounds_yBottom b)"
    and ord: "jlt (bounds_yTop b) (bounds_yBottom b)" and pos: "jlt (Fin 0) (bounds_x b)"
    and fx: "isFinite (bounds_x b)" and fy: "isFinite (bounds_yBottom b)"
    and h: "0 < h"
  shows "displacement b [seg]
           (jadd (bounds_yTop b)
              (jmul (jdiv (num y) (num h)) (jsub (bounds_yBottom b) (bounds_yTop b)))) scale = Fin 0"
proof -
  obtain c where c: "bounds_x b = Fin c" using fx by (cases "bounds_x b") auto
  have c0: "bounds_x b \<noteq> Fin 0" using pos c by auto
  obtain e where e: "bounds_yBottom b = Fin e" using fy by (cases "bounds_yBottom b") auto
  have sx: "seg_x1 seg = Fin c" "seg_x2 seg = Fin c"
    using jseq_eq [OF x1] jseq_eq [OF x2] c by simp_all
  have sy: "seg_y1 seg = bounds_yTop b" "seg_y2 seg = Fin e"
    using jseq_eq [OF y1] jseq_eq [OF y2] e by simp_all
  let ?curveY = "jadd (bounds_yTop b)
                   (jmul (jdiv (num y) (num h)) (jsub (bounds_yBottom b) (bounds_yTop b)))"
  have q: "jdiv (num y) (num h) = Fin (of_nat y / of_nat h)"
    using h by (simp add: num_def)
  have "findCurveX (bounds_x b) ?curveY [seg] = bounds_x b"
  proof (cases "bounds_yTop b")
    case (Fin a)
    have ae: "e - a \<noteq> 0" using ord Fin e by simp
    have "segCurveX ?curveY seg = Fin c"
      using ae by (simp add: segCurveX_def segT_def sx sy Fin e q jsub_def jor_def truthy_def)
    then show ?thesis by (simp add: c)
  next
    case PInf
    then show ?thesis using ord by simp
  next
    case NInf
    have "?curveY = NaN"
      by (simp add: NInf e q jsub_def)
    then have "\<not> segContains ?curveY seg"
      by (simp add: segContains_def jge_def)
    then show ?thesis by simp
  next
    case NaN
    then show ?thesis using ord by simp
  qed
  then show ?thesis
    unfolding displacement_def Let_def using zero_offset [OF fx c0] by simp
qed

text \<open>
  Claim C7, as amended. For a frame of any size, 640 by 480 among them, and a curve of one
  segment with \<open>x1 == x2 == bounds.x\<close>, \<open>y1 == bounds.yTop\<close>, \<open>y2 == bounds.yBottom\<close>,
  \<open>bounds.yBottom > bounds.yTop\<close>, \<open>bounds.x > 0\<close>, and \<open>bounds.x\<close> and \<open>bounds.yBottom\<close>
  finite, drawing at rotation 0 gives the input frame: the displacement of every pixel is
  zero and its source coordinate is the pixel itself.
\<close>

theorem straight_curve_identity:
  assumes "validFrame video"
    and "jseq (seg_x1 seg) (bounds_x b)" and "jseq (seg_x2 seg) (bounds_x b)"
    and "jseq (seg_y1 seg) (bounds_yTop b)" and "jseq (seg_y2 seg) (bounds_yBottom b)"
    and "jlt (bounds_yTop b) (bounds_yBottom b)" and "jlt (Fin 0) (bounds_x b)"
    and "isFinite (bounds_x b)" and "isFinite (bounds_yBottom b)"
  shows "render video (Some \<lparr>bounds = b, lineSegments = Some [seg]\<rparr>) (Fin 0) = Inr (Some video) \<and>
         (\<forall>x y. displacement b [seg]
                   (jadd (bounds_yTop b)
                      (jmul (jdiv (num y) (num (videoHeight video)))
                         (jsub (bounds_yBottom b) (bounds_yTop b)))) (videoWidth video) = Fin 0 \<and>
                 sourceCoord (videoWidth video) (videoHeight video) b [seg] (Fin 0) x y
                   = (num x, num y))"
proof -
  have len: "length (frame_data video) = videoWidth video * videoHeight video * 4"
    and pos: "0 < videoWidth video" "0 < videoHeight video"
    using assms(1) by (simp_all add: validFrame_def)
  note d = straight_curve_displacement [OF assms(2-9) pos(2)]
  have s: "sourceCoord (videoWidth video) (videoHeight video) b [seg] (Fin 0) x y = (num x, num y)"
    for x y
    by (simp add: sourceCoord_def jseq_def Let_def d jsub_zero jfloor_num)
  have loop: "distortLoop (videoWidth video) (videoHeight video) (frame_data video) b [seg] (Fin 0)
                = frame_data video"
    by (rule distortLoop_identity [OF len]) (rule s)
  have "render video (Some \<lparr>bounds = b, lineSegments = Some [seg]\<rparr>) (Fin 0) = Inr (Some video)"
    using pos by (simp add: render_def hasCurve_def applyDistortion_def Let_def loop)
  then show ?thesis using d s by simp
qed

theorem straight_curve_identity_witness:
  "validFrame \<lparr>videoWidth = 640, videoHeight = 480, frame_data = replicate (640 * 480 * 4) 255\<rparr>
   \<and> render \<lparr>videoWidth = 640, videoHeight = 480, frame_data = replicate (640 * 480 * 4) 255\<rparr>
       (Some \<lparr>bounds = \<lparr>bounds_x = Fin 400, bounds_yTop = Fin 50, bounds_yBottom = Fin 550\<rparr>,
              lineSegments = Some [\<lparr>seg_x1 = Fin 400, seg_y1 = Fin 50,
                                    seg_x2 = Fin 400, seg_y2 = Fin 550\<rparr>]\<rparr>) (Fin 0)
     = Inr (Some \<lparr>videoWidth = 640, videoHeight = 480,
                   frame_data = replicate (640 * 480 * 4) 255\<rparr>)"
proof -
  have v: "validFrame \<lparr>videoWidth = 640, videoHeight = 480,
                       frame_data = replicate (640 * 480 * 4) (255::byte)\<rparr>"
    by (simp add: validFrame_def)
  show ?thesis
    using v straight_curve_identity [OF v,
        of "\<lparr>seg_x1 = Fin 400, seg_y1 = Fin 50, seg_x2 = Fin 400, seg_y2 = Fin 550\<rparr>"
           "\<lparr>bounds_x = Fin 400, bounds_yTop = Fin 50, bounds_yBottom = Fin 550\<rparr>"]
    by (simp add: jseq_def)
qed

text \<open>
  The claim as it was stated asks for \<open>bounds.x > 0\<close> and
  \<open>bounds.yBottom > bounds.yTop\<close> only, which \<open>Infinity\<close> satisfies. On a 640 by 480
  frame whose bytes are all 255: with \<open>bounds.x = Infinity\<close>, \<open>x2 - x1\<close> is \<open>NaN\<close>, the
  source column of pixel \<open>(0, 0)\<close> is \<open>NaN\<close> and the pixel stays 0; with
  \<open>bounds.yBottom = Infinity\<close>, \<open>t\<close> is \<open>Infinity / Infinity\<close> in row 1, and pixel
  \<open>(0, 1)\<close> stays 0.
\<close>

lemma untouched_pixel_differs:
  assumes "validFrame video" and "lineSegments c = Some segs" and "segs \<noteq> []"
    and "x < videoWidth video" and "y < videoHeight video"
    and "\<not> inFrame (videoWidth video) (videoHeight video)
            (sourceCoord (videoWidth video) (videoHeight video) (bounds c) segs rot x y)"
    and "frame_data video ! ((y * videoWidth video + x) * 4) \<noteq> 0"
  shows "render video (Some c) rot \<noteq> Inr (Some video)"
proof
  assume r: "render video (Some c) rot = Inr (Some video)"
  have pos: "0 < videoWidth video" "0 < videoHeight video"
    using assms(1) by (simp_all add: validFrame_def)
  have "render video (Some c) rot =
      Inr (Some \<lparr>videoWidth = videoWidth video, videoHeight = videoHeight video,
                 frame_data = distortLoop (videoWidth video) (videoHeight video)
                                (frame_data video) (bounds c) segs rot\<rparr>)"
    using pos assms(2,3) by (simp add: render_def hasCurve_def applyDistortion_def Let_def)
  with r have "frame_data video = distortLoop (videoWidth video) (videoHeight video)
                                (frame_data video) (bounds c) segs rot"
    by (metis Inr_inject option.inject frame.select_convs(3))
  moreover have "distortLoop (videoWidth video) (videoHeight video)
                   (frame_data video) (bounds c) segs rot ! ((y * videoWidth video + x) * 4 + 0) = 0"
    using distortLoop_nth [OF assms(4,5), of 0] assms(6) by simp
  ultimately show False using assms(7) by simp
qed

theorem infinite_centerline_counterexample:
  "validFrame \<lparr>videoWidth = 640, videoHeight = 480, frame_data = replicate (640 * 480 * 4) 255\<rparr>
   \<and> jseq PInf PInf \<and> jseq (Fin 320) (Fin 320) \<and> jseq (Fin 0) (Fin 0) \<and> jseq (Fin 480) (Fin 480)
   \<and> jlt (Fin 0) (Fin 480) \<and> jlt (Fin 0) PInf \<and> jlt (Fin 0) (Fin 320)
   \<and> render \<lparr>videoWidth = 640, videoHeight = 480, frame_data = replicate (640 * 480 * 4) 255\<rparr>
       (Some \<lparr>bounds = \<lparr>bounds_x = PInf, bounds_yTop = Fin 0, bounds_yBottom = Fin 480\<rparr>,
              lineSegments = Some [\<lparr>seg_x1 = PInf, seg_y1 = Fin 0,
                                    seg_x2 = PInf, seg_y2 = Fin 480\<rparr>]\<rparr>) (Fin 0)
     \<noteq> Inr (Some \<lparr>videoWidth = 640, videoHeight = 480,
                   frame_data = replicate (640 * 480 * 4) 255\<rparr>)
   \<and> render \<lparr>videoWidth = 640, videoHeight = 480, frame_data = replicate (640 * 480 * 4) 255\<rparr>
       (Some \<lparr>bounds = \<lparr>bounds_x = Fin 320, bounds_yTop = Fin 0, bounds_yBottom = PInf\<rparr>,
              lineSegments = Some [\<lparr>seg_x1 = Fin 320, seg_y1 = Fin 0,
                                    seg_x2 = Fin 320, seg_y2 = PInf\<rparr>]\<rparr>) (Fin 0)
     \<noteq> Inr (Some \<lparr>videoWidth = 640, videoHeight = 480,
                   frame_data = replicate (640 * 480 * 4) 255\<rparr>)"
proof -
  let ?video = "\<lparr>videoWidth = 640, videoHeight = 480,
                 frame_data = replicate (640 * 480 * 4) (255::byte)\<rparr>"
  let ?seg = "\<lparr>seg_x1 = PInf, seg_y1 = Fin 0, seg_x2 = PInf, seg_y2 = Fin 480\<rparr>"
  let ?b = "\<lparr>bounds_x = PInf, bounds_yTop = Fin 0, bounds_yBottom = Fin 480\<rparr>"
  let ?seg' = "\<lparr>seg_x1 = Fin 320, seg_y1 = Fin 0, seg_x2 = Fin 320, seg_y2 = PInf\<rparr>"
  let ?b' = "\<lparr>bounds_x = Fin 320, bounds_yTop = Fin 0, bounds_yBottom = PInf\<rparr>"
  have v: "validFrame ?video" by (simp add: validFrame_def)
  have s: "sourceCoord 640 480 ?b [?seg] (Fin 0) 0 0 = (NaN, Fin 0)"
    by (simp add: sourceCoord_def displacement_def segContains_def segCurveX_def segT_def
        jmin_def jmax_def jge_def jseq_def jsub_def jor_def truthy_def num_def Let_def)
  have n: "\<not> inFrame 640 480 (sourceCoord 640 480 ?b [?seg] (Fin 0) 0 0)"
    unfolding s by (simp add: inFrame_def jge_def)
  have s': "sourceCoord 640 480 ?b' [?seg'] (Fin 0) 0 1 = (NaN, Fin 1)"
    by (simp add: sourceCoord_def displacement_def segContains_def segCurveX_def segT_def
        jmin_def jmax_def jge_def jseq_def jsub_def jor_def truthy_def num_def Let_def)
  have n': "\<not> inFrame 640 480 (sourceCoord 640 480 ?b' [?seg'] (Fin 0) 0 1)"
    unfolding s' by (simp add: inFrame_def jge_def)
  have d: "frame_data ?video ! ((0 * videoWidth ?video + 0) * 4) \<noteq> 0" by simp
  have d': "frame_data ?video ! ((1 * videoWidth ?video + 0) * 4) \<noteq> 0" by simp
  have "render ?video (Some \<lparr>bounds = ?b, lineSegments = Some [?seg]\<rparr>) (Fin 0)
          \<noteq> Inr (Some ?video)"
    using n d by (intro untouched_pixel_differs [OF v, of _ "[?seg]" 0 0]) simp_all
  moreover have "render ?video (Some \<lparr>bounds = ?b', lineSegments = Some [?seg']\<rparr>) (Fin 0)
          \<noteq> Inr (Some ?video)"
    using n' d' by (intro untouched_pixel_differs [OF v, of _ "[?seg']" 0 1]) simp_all
  ultimately show ?thesis using v by (simp add: jseq_def)
qed

section \<open>The midpoint of a physical segment\<close>


lemma convertSegment_z1:
  "z1 (convertSegment b seg) =
     jdiv (jadd (z0 (convertSegment b seg)) (z2 (convertSegment b seg))) (Fin 2)"
  by (simp add: convertSegment_def Let_def split: prod.split)

lemma midpoint_NaN_iff:
  "jdiv (jadd a b) (Fin 2) = NaN \<longleftrightarrow>
     a = NaN \<or> b = NaN \<or> (a = PInf \<and> b = NInf) \<or> (a = NInf \<and> b = PInf)"
  by (cases a; cases b) simp_all

text \<open>
  Claim C8, as amended. For a curve with at least one line segment, \<open>z1\<close> of every
  physical segment is the value of \<open>(z0 + z2) / 2\<close>, and the comparison
  \<open>z1 == (z0 + z2) / 2\<close> holds exactly when that value is not \<open>NaN\<close>: when neither
  \<open>z0\<close> nor \<open>z2\<close> is \<open>NaN\<close> and they are not infinities of opposite sign.
\<close>

theorem midpoint_invariant:
  assumes "lineSegments c = Some segs" and "segs \<noteq> []"
    and "p \<in> set (convertCurveDataToSegments (Some c))"
  shows "z1 p = jdiv (jadd (z0 p) (z2 p)) (Fin 2) \<and>
         (jseq (z1 p) (jdiv (jadd (z0 p) (z2 p)) (Fin 2)) \<longleftrightarrow>
            z0 p \<noteq> NaN \<and> z2 p \<noteq> NaN \<and> \<not> (z0 p = PInf \<and> z2 p = NInf) \<and>
            \<not> (z0 p = NInf \<and> z2 p = PInf))"
proof -
  from assms obtain s where s: "s \<in> set segs" "p = convertSegment (bounds c) s"
    by (auto simp: convertCurveDataToSegments_def)
  have m: "z1 p = jdiv (jadd (z0 p) (z2 p)) (Fin 2)"
    unfolding s(2) by (rule convertSegment_z1)
  have "jseq (z1 p) (jdiv (jadd (z0 p) (z2 p)) (Fin 2)) \<longleftrightarrow>
          jdiv (jadd (z0 p) (z2 p)) (Fin 2) \<noteq> NaN"
    using m by (simp add: jseq_def)
  then show ?thesis using m midpoint_NaN_iff [of "z0 p" "z2 p"] by blast
qed

theorem midpoint_invariant_witness:
  "convertCurveDataToSegments
     (Some \<lparr>bounds = \<lparr>bounds_x = Fin 400, bounds_yTop = Fin 50, bounds_yBottom = Fin 550\<rparr>,
            lineSegments = Some [\<lparr>seg_x1 = Fin 400, seg_y1 = Fin 50,
                                  seg_x2 = Fin 300, seg_y2 = Fin 550\<rparr>]\<rparr>) =
     [\<lparr>yMin = Fin (- 2), yMax = Fin 2, z0 = Fin 0, z1 = Fin (- (1 / 8)), z2 = Fin (- (1 / 4))\<rparr>]
   \<and> jseq (Fin (- (1 / 8))) (jdiv (jadd (Fin 0) (Fin (- (1 / 4)))) (Fin 2))"
  using midpoint_invariant
    [of "\<lparr>bounds = \<lparr>bounds_x = Fin 400, bounds_yTop = Fin 50, bounds_yBottom = Fin 550\<rparr>,
          lineSegments = Some [\<lparr>seg_x1 = Fin 400, seg_y1 = Fin 50,
                                seg_x2 = Fin 300, seg_y2 = Fin 550\<rparr>]\<rparr>"
        "[\<lparr>seg_x1 = Fin 400, seg_y1 = Fin 50, seg_x2 = Fin 300, seg_y2 = Fin 550\<rparr>]"
        "\<lparr>yMin = Fin (- 2), yMax = Fin 2, z0 = Fin 0, z1 = Fin (- (1 / 8)), z2 = Fin (- (1 / 4))\<rparr>"]
  by (simp add: convertCurveDataToSegments_def convertSegment_def jsub_def jmin_def jmax_def
      physicalHalfHeight_def physicalMaxDepth_def Let_def)

text \<open>
  The claim as it was stated asks for finite bounds only. With \<open>bounds.x = 0\<close> and a
  segment on the centerline the depths are \<open>0 / 0\<close>: \<open>z0\<close>, \<open>z1\<close> and \<open>z2\<close> are \<open>NaN\<close>,
  and \<open>NaN == NaN\<close> is false.
\<close>

theorem midpoint_nan_counterexample:
  "isFinite (Fin 0) \<and> isFinite (Fin 1) \<and>
   convertCurveDataToSegments
     (Some \<lparr>bounds = \<lparr>bounds_x = Fin 0, bounds_yTop = Fin 0, bounds_yBottom = Fin 1\<rparr>,
            lineSegments = Some [\<lparr>seg_x1 = Fin 0, seg_y1 = Fin 0,
                                  seg_x2 = Fin 0, seg_y2 = Fin 1\<rparr>]\<rparr>) =
     [\<lparr>yMin = Fin (- 2), yMax = Fin 2, z0 = NaN, z1 = NaN, z2 = NaN\<rparr>]
   \<and> \<not> jseq NaN (jdiv (jadd NaN NaN) (Fin 2))"
  by (simp add: convertCurveDataToSegments_def convertSegment_def jsub_def jmin_def jmax_def
      physicalHalfHeight_def physicalMaxDepth_def jseq_def Let_def)

section \<open>No exceptions\<close>








lemma render_no_error: "\<exists>r. render video cd rot = Inr r"
proof (cases "0 < videoWidth video \<and> 0 < videoHeight video \<and> hasCurve cd")
  case True
  then obtain c segs where "cd = Some c" "lineSegments c = Some segs"
    by (auto simp: hasCurve_def split: option.splits)
  then show ?thesis using True
    by (simp add: render_def applyDistortion_def Let_def)
next
  case False
  then show ?thesis by (auto simp: render_def)
qed









end
